theory Spec2Isabelle
  imports Main "HOL-Library.Sublist"
begin

section \<open>Python values\<close>

text \<open>
  A Python \<open>str\<close> is a sequence of Unicode code points; a \<open>bytes\<close> object is a sequence
  of octets. ASCII literals of the source are written \<open>str ''...''\<close>; the Chinese literals
  are listed by code point.
\<close>

type_synonym pystr = "nat list"
type_synonym pybytes = "char list"

definition str :: "string \<Rightarrow> pystr" where
  "str s = map of_char s"

text \<open>\<open>str.isspace\<close> of one character; also what \<open>\s\<close> matches in a \<open>str\<close> pattern.\<close>

definition is_space :: "nat \<Rightarrow> bool" where
  "is_space c =
     ((0x09 \<le> c \<and> c \<le> 0x0D) \<or> (0x1C \<le> c \<and> c \<le> 0x20) \<or> c = 0x85 \<or> c = 0xA0 \<or>
      c = 0x1680 \<or> (0x2000 \<le> c \<and> c \<le> 0x200A) \<or> c = 0x2028 \<or> c = 0x2029 \<or>
      c = 0x202F \<or> c = 0x205F \<or> c = 0x3000)"

text \<open>\<open>s.strip()\<close> and \<open>s.strip(chars)\<close>.\<close>

definition str_strip :: "pystr \<Rightarrow> pystr" where
  "str_strip s = rev (dropWhile is_space (rev (dropWhile is_space s)))"

definition str_strip_chars :: "pystr \<Rightarrow> pystr \<Rightarrow> pystr" where
  "str_strip_chars chars s =
     rev (dropWhile (\<lambda>c. c \<in> set chars) (rev (dropWhile (\<lambda>c. c \<in> set chars) s)))"

text \<open>\<open>s.split(sep)\<close> for a separator of one character.\<close>

fun str_split :: "nat \<Rightarrow> pystr \<Rightarrow> pystr list" where
  "str_split sep [] = [[]]"
| "str_split sep (c # s) =
     (if c = sep then [] # str_split sep s
      else (case str_split sep s of
              [] \<Rightarrow> [[c]]
            | x # xs \<Rightarrow> (c # x) # xs))"

text \<open>
  \<open>s.replace(old, new)\<close>: the occurrences of \<open>old\<close> are taken from the left and do not
  overlap. With an empty \<open>old\<close> Python puts \<open>new\<close> around every character.
\<close>

fun replace_from :: "'a list \<Rightarrow> 'a list \<Rightarrow> 'a list \<Rightarrow> 'a list" where
  "replace_from old new [] = []"
| "replace_from old new (c # s) =
     (if prefix old (c # s) then new @ replace_from old new (drop (length old - 1) s)
      else c # replace_from old new s)"

definition str_replace :: "'a list \<Rightarrow> 'a list \<Rightarrow> 'a list \<Rightarrow> 'a list" where
  "str_replace old new s =
     (if old = [] then new @ concat (map (\<lambda>c. c # new) s) else replace_from old new s)"

text \<open>\<open>sub in s\<close> on strings.\<close>

fun str_contains :: "'a list \<Rightarrow> 'a list \<Rightarrow> bool" where
  "str_contains sub [] = (sub = [])"
| "str_contains sub (c # s) = (prefix sub (c # s) \<or> str_contains sub s)"

section \<open>The two regular expressions\<close>

subsection \<open>The share-link pattern\<close>

text \<open>
  \<^verbatim>\<open>https?://(?:[a-zA-Z]|[0-9]|[$-_@.&+]|[!*(),]|%[0-9a-fA-F][0-9a-fA-F])+\<close>
  In the third class \<^verbatim>\<open>$-_\<close> is a range, from code point 0x24 to 0x5F.
\<close>

definition is_alpha :: "nat \<Rightarrow> bool" where
  "is_alpha c = ((0x41 \<le> c \<and> c \<le> 0x5A) \<or> (0x61 \<le> c \<and> c \<le> 0x7A))"

definition is_digit :: "nat \<Rightarrow> bool" where
  "is_digit c = (0x30 \<le> c \<and> c \<le> 0x39)"

definition is_hex :: "nat \<Rightarrow> bool" where
  "is_hex c = (is_digit c \<or> (0x41 \<le> c \<and> c \<le> 0x46) \<or> (0x61 \<le> c \<and> c \<le> 0x66))"

definition is_class3 :: "nat \<Rightarrow> bool" where
  "is_class3 c = ((0x24 \<le> c \<and> c \<le> 0x5F) \<or> c = 0x40 \<or> c = 0x2E \<or> c = 0x26 \<or> c = 0x2B)"

definition is_class4 :: "nat \<Rightarrow> bool" where
  "is_class4 c = (c = 0x21 \<or> c = 0x2A \<or> c = 0x28 \<or> c = 0x29 \<or> c = 0x2C)"

text \<open>
  One round of the group: the number of characters the first alternative that matches
  consumes, 0 when none matches.
\<close>

fun url_atom :: "pystr \<Rightarrow> nat" where
  "url_atom [] = 0"
| "url_atom (c # s) =
     (if is_alpha c then 1
      else if is_digit c then 1
      else if is_class3 c then 1
      else if is_class4 c then 1
      else if c = 0x25 \<and> (case s of a # b # _ \<Rightarrow> is_hex a \<and> is_hex b | _ \<Rightarrow> False) then 3
      else 0)"

lemma url_atom_bound: "0 < url_atom s \<Longrightarrow> length s - url_atom s < length s"
  by (cases s) (auto split: if_splits)

text \<open>
  The greedy repetition: the number of characters of the longest run of rounds. Nothing
  follows the group in the pattern, so the run is never shortened again.
\<close>

function url_atoms :: "pystr \<Rightarrow> nat" where
  "url_atoms s = (if url_atom s = 0 then 0 else url_atom s + url_atoms (drop (url_atom s) s))"
  by pat_completeness auto
termination
  by (relation "measure length") (auto simp: url_atom_bound)

declare url_atoms.simps [simp del]

text \<open>
  The pattern anchored at the start of \<open>s\<close>. The optional \<open>s\<close> is taken when it is there:
  leaving it out would put \<^verbatim>\<open>://\<close> against the letter \<open>s\<close>, which cannot match.
\<close>

definition url_match :: "pystr \<Rightarrow> pystr option" where
  "url_match s =
     (if prefix (str ''http'') s then
        (let r = drop 4 s;
             r' = (case r of [] \<Rightarrow> r | c # t \<Rightarrow> if c = 0x73 then t else r)
         in if prefix (str ''://'') r' then
              (let rest = drop 3 r'; n = url_atoms rest
               in if n = 0 then None else Some (take (length s - length rest + n) s))
            else None)
      else None)"

text \<open>\<open>re.findall\<close>: the matches from the left, the scan going on where a match ends.\<close>

fun findall_urls :: "pystr \<Rightarrow> pystr list" where
  "findall_urls [] = []"
| "findall_urls (c # s) =
     (case url_match (c # s) of
        None \<Rightarrow> findall_urls s
      | Some m \<Rightarrow> m # findall_urls (drop (length m - 1) s))"

subsection \<open>The page pattern\<close>

text \<open>
  \<^verbatim>\<open>window\._ROUTER_DATA\s*=\s*(.*?)</script>\<close> with \<open>DOTALL\<close>. The lazy group ends at
  the first \<^verbatim>\<open></script>\<close> after the white space that follows the equals sign.
\<close>

fun until_sub :: "'a list \<Rightarrow> 'a list \<Rightarrow> 'a list option" where
  "until_sub pat [] = (if pat = [] then Some [] else None)"
| "until_sub pat (c # s) =
     (if prefix pat (c # s) then Some []
      else map_option (\<lambda>g. c # g) (until_sub pat s))"

definition router_match :: "pystr \<Rightarrow> pystr option" where
  "router_match s =
     (if prefix (str ''window._ROUTER_DATA'') s then
        (case dropWhile is_space (drop 19 s) of
           [] \<Rightarrow> None
         | c # r \<Rightarrow>
             if c = 0x3D then until_sub (str ''</script>'') (dropWhile is_space r)
             else None)
      else None)"

text \<open>\<open>pattern.search\<close>: group 1 of the leftmost match.\<close>

fun router_search :: "pystr \<Rightarrow> pystr option" where
  "router_search [] = router_match []"
| "router_search (c # s) =
     (case router_match (c # s) of
        Some g \<Rightarrow> Some g
      | None \<Rightarrow> router_search s)"

section \<open>JSON values and exceptions\<close>

text \<open>
  What \<open>json.loads\<close> returns. A dict is an association list read with \<open>map_of\<close>; a float
  is kept as its IEEE bit pattern, the code never looks into one.
\<close>

datatype json =
    JNull
  | JBool bool
  | JInt int
  | JFloat nat
  | JStr pystr
  | JArr "json list"
  | JObj "(pystr \<times> json) list"

text \<open>
  The exceptions, all subclasses of \<open>Exception\<close>. \<open>ValueError\<close> and \<open>Exception\<close> are the
  ones the code raises itself, with their message; \<open>KeyError\<close>, \<open>IndexError\<close>,
  \<open>TypeError\<close> and \<open>AttributeError\<close> come from the interpreter; \<open>HTTPError\<close> from
  \<open>raise_for_status\<close>; \<open>Raised\<close> is any exception raised inside a collaborator
  (requests, json, the file system, the host context), with the text \<open>str\<close> gives for it.
\<close>

datatype exn =
    ValueError pystr
  | Exception pystr
  | KeyError json
  | IndexError
  | TypeError
  | AttributeError
  | HTTPError int
  | Raised pystr

definition msg_no_link :: pystr where
  "msg_no_link = [0x672A, 0x627E, 0x5230, 0x6709, 0x6548, 0x7684, 0x5206, 0x4EAB, 0x94FE, 0x63A5]"

definition msg_parse_html :: pystr where
  "msg_parse_html =
     [0x4ECE, 0x48, 0x54, 0x4D, 0x4C, 0x4E2D, 0x89E3, 0x6790, 0x89C6, 0x9891, 0x4FE1, 0x606F,
      0x5931, 0x8D25]"

definition msg_parse_json :: pystr where
  "msg_parse_json =
     [0x65E0, 0x6CD5, 0x4ECE, 0x4A, 0x53, 0x4F, 0x4E, 0x4E2D, 0x89E3, 0x6790, 0x89C6, 0x9891,
      0x6216, 0x56FE, 0x96C6, 0x4FE1, 0x606F]"

text \<open>\<open>obj[key]\<close> with a string key, \<open>obj[0]\<close>, and \<open>key in obj\<close>.\<close>

fun getitem :: "json \<Rightarrow> pystr \<Rightarrow> exn + json" where
  "getitem (JObj kvs) k = (case map_of kvs k of None \<Rightarrow> Inl (KeyError (JStr k)) | Some v \<Rightarrow> Inr v)"
| "getitem _ k = Inl TypeError"

fun getitem0 :: "json \<Rightarrow> exn + json" where
  "getitem0 (JObj kvs) = Inl (KeyError (JInt 0))"
| "getitem0 (JArr []) = Inl IndexError"
| "getitem0 (JArr (x # xs)) = Inr x"
| "getitem0 (JStr []) = Inl IndexError"
| "getitem0 (JStr (c # s)) = Inr (JStr [c])"
| "getitem0 _ = Inl TypeError"

fun contains :: "pystr \<Rightarrow> json \<Rightarrow> exn + bool" where
  "contains k (JObj kvs) = Inr (map_of kvs k \<noteq> None)"
| "contains k (JArr xs) = Inr (JStr k \<in> set xs)"
| "contains k (JStr s) = Inr (str_contains k s)"
| "contains k _ = Inl TypeError"

definition bindS :: "exn + 'a \<Rightarrow> ('a \<Rightarrow> exn + 'b) \<Rightarrow> exn + 'b" where
  "bindS r f = (case r of Inl e \<Rightarrow> Inl e | Inr x \<Rightarrow> f x)"

section \<open>The world outside\<close>

text \<open>
  What the program does to its surroundings is recorded in order: every HTTP request,
  every message and progress report given to the host context, every file opened for
  writing and every chunk written. The file system holds the contents of the files and
  the directories that exist; it is a dictionary kept as an association list, as are the
  attributes of an instance below.
\<close>

definition assign :: "'k \<Rightarrow> 'v \<Rightarrow> ('k \<times> 'v) list \<Rightarrow> ('k \<times> 'v) list" where
  "assign k v kvs = (k, v) # filter (\<lambda>kv. fst kv \<noteq> k) kvs"

datatype event =
    HttpGet pystr
  | Info pystr
  | FileOpen pystr
  | FileWrite pystr pybytes
  | Progress int int

record world =
  trace :: "event list"
  files :: "(pystr \<times> pybytes) list"
  dirs :: "pystr list"

text \<open>
  What \<open>requests.get\<close> returns: the final URL after redirects, the status, the decoded
  body, the \<open>content-length\<close> header when there is one, and for a streamed body the
  chunks \<open>iter_content\<close> yields, followed by the exception of a broken stream if any.
\<close>

record response =
  r_url :: pystr
  r_status_code :: int
  r_text :: pystr
  r_content_length :: "pystr option"
  r_chunks :: "pybytes list"
  r_stream_exc :: "exn option"

text \<open>
  The collaborators, each a function of what has happened so far: \<open>requests.get\<close> with
  the fixed headers, \<open>json.loads\<close> and \<open>json.dumps\<close>, \<open>int\<close> on a string,
  \<open>open(path, 'wb')\<close> and \<open>f.write\<close> (an exception or none), the host context's
  \<open>info\<close> and \<open>report_progress\<close> (an exception or none), and the text \<open>str\<close> gives for
  an exception of the interpreter.
\<close>

record env =
  requests_get :: "world \<Rightarrow> pystr \<Rightarrow> exn + response"
  json_loads :: "pystr \<Rightarrow> exn + json"
  json_dumps :: "json \<Rightarrow> pystr"
  int_of_str :: "pystr \<Rightarrow> exn + int"
  open_wb :: "world \<Rightarrow> pystr \<Rightarrow> exn option"
  file_write :: "world \<Rightarrow> pystr \<Rightarrow> pybytes \<Rightarrow> exn option"
  ctx_info :: "world \<Rightarrow> pystr \<Rightarrow> exn option"
  ctx_report_progress :: "world \<Rightarrow> int \<Rightarrow> int \<Rightarrow> exn option"
  builtin_text :: "exn \<Rightarrow> pystr"

text \<open>A computation returns a value or raises, and leaves a world behind.\<close>

type_synonym 'a io = "world \<Rightarrow> (exn + 'a) \<times> world"

definition ret :: "'a \<Rightarrow> 'a io" where
  "ret x w = (Inr x, w)"

definition lift :: "exn + 'a \<Rightarrow> 'a io" where
  "lift r w = (r, w)"

definition bindE :: "'a io \<Rightarrow> ('a \<Rightarrow> 'b io) \<Rightarrow> 'b io" where
  "bindE m f w = (case m w of (Inl e, w') \<Rightarrow> (Inl e, w') | (Inr x, w') \<Rightarrow> f x w')"

definition log_event :: "event \<Rightarrow> world \<Rightarrow> world" where
  "log_event ev w = w\<lparr>trace := trace w @ [ev]\<rparr>"

definition http_get :: "env \<Rightarrow> pystr \<Rightarrow> response io" where
  "http_get env u w = (requests_get env w u, log_event (HttpGet u) w)"

definition raise_for_status :: "response \<Rightarrow> exn + unit" where
  "raise_for_status r =
     (if 400 \<le> r_status_code r \<and> r_status_code r < 600 then Inl (HTTPError (r_status_code r))
      else Inr ())"

section \<open>DouyinProcessor\<close>

text \<open>An instance is its attribute dictionary.\<close>

datatype pyval = PStr pystr | PPath pystr

type_synonym pyobject = "(pystr \<times> pyval) list"

definition setattr :: "pyobject \<Rightarrow> pystr \<Rightarrow> pyval \<Rightarrow> pyobject" where
  "setattr obj name v = assign name v obj"

definition hasattr :: "pyobject \<Rightarrow> pystr \<Rightarrow> bool" where
  "hasattr obj name = (map_of obj name \<noteq> None)"

definition getattr :: "pyobject \<Rightarrow> pystr \<Rightarrow> exn + pyval" where
  "getattr obj name = (case map_of obj name of None \<Rightarrow> Inl AttributeError | Some v \<Rightarrow> Inr v)"

definition DouyinProcessor_init :: "pystr \<Rightarrow> pyobject" where
  "DouyinProcessor_init share_link =
     setattr (setattr [] (str ''cache_dir'') (PStr (str ''../tmp'')))
       (str ''share_link'') (PStr share_link)"

text \<open>
  \<open>Path.exists\<close> and \<open>shutil.rmtree(path, ignore_errors=True)\<close>: a directory goes with
  everything below it; on anything else the error is ignored and nothing is removed.
\<close>

definition path_exists :: "world \<Rightarrow> pystr \<Rightarrow> bool" where
  "path_exists w p = (map_of (files w) p \<noteq> None \<or> p \<in> set (dirs w))"

definition below :: "pystr \<Rightarrow> pystr \<Rightarrow> bool" where
  "below p q = prefix (p @ [0x2F]) q"

definition rmtree :: "pystr \<Rightarrow> world \<Rightarrow> world" where
  "rmtree p w =
     (if p \<in> set (dirs w) then
        w\<lparr>files := filter (\<lambda>f. \<not> below p (fst f)) (files w),
          dirs := filter (\<lambda>q. q \<noteq> p \<and> \<not> below p q) (dirs w)\<rparr>
      else w)"

text \<open>
  \<open>__del__\<close>. An exception raised in a finalizer is not propagated: with a \<open>temp_dir\<close>
  that is a string, \<open>.exists\<close> fails and nothing happens.
\<close>

definition DouyinProcessor_del :: "pyobject \<Rightarrow> world \<Rightarrow> world" where
  "DouyinProcessor_del self w =
     (if hasattr self (str ''temp_dir'') then
        (case map_of self (str ''temp_dir'') of
           Some (PPath p) \<Rightarrow> if path_exists w p then rmtree p w else w
         | _ \<Rightarrow> w)
      else w)"

subsection \<open>parse_share_url\<close>

definition video_id_page_key :: pystr where
  "video_id_page_key = str ''video_(id)/page''"

definition note_id_page_key :: pystr where
  "note_id_page_key = str ''note_(id)/page''"

text \<open>
  From the share text to the detail page: the first URL of the text, the request that
  follows its redirects, the identifier cut from the final URL, the request for the
  detail page and its status check. Returns the identifier and the page text.
\<close>

definition video_id_of_url :: "pystr \<Rightarrow> pystr" where
  "video_id_of_url u =
     last (str_split 0x2F (str_strip_chars [0x2F] (hd (str_split 0x3F u))))"

definition fetch_detail_page :: "env \<Rightarrow> pystr \<Rightarrow> (pystr \<times> pystr) io" where
  "fetch_detail_page env share_link =
     (case findall_urls share_link of
        [] \<Rightarrow> lift (Inl (ValueError msg_no_link))
      | share_url # _ \<Rightarrow>
          bindE (http_get env share_url) (\<lambda>share_response.
            let video_id = video_id_of_url (r_url share_response);
                share_url' = str ''https://www.iesdouyin.com/share/video/'' @ video_id
            in bindE (http_get env share_url') (\<lambda>response.
                 bindE (lift (raise_for_status response)) (\<lambda>_.
                   ret (video_id, r_text response)))))"

text \<open>The embedded JSON of the page: the search, the test of group 1, \<open>json.loads\<close>.\<close>

definition router_json :: "env \<Rightarrow> pystr \<Rightarrow> exn + json" where
  "router_json env page =
     (case router_search page of
        None \<Rightarrow> Inl (ValueError msg_parse_html)
      | Some g \<Rightarrow>
          if g = [] then Inl (ValueError msg_parse_html)
          else json_loads env (str_strip g))"

text \<open>The choice between the two keys of \<open>loaderData\<close>.\<close>

definition video_info_res :: "json \<Rightarrow> exn + json" where
  "video_info_res json_data =
     bindS (getitem json_data (str ''loaderData'')) (\<lambda>loader.
       bindS (contains video_id_page_key loader) (\<lambda>has_video.
         if has_video then
           bindS (getitem loader video_id_page_key) (\<lambda>page. getitem page (str ''videoInfoRes''))
         else
           bindS (contains note_id_page_key loader) (\<lambda>has_note.
             if has_note then
               bindS (getitem loader note_id_page_key) (\<lambda>page.
                 getitem page (str ''videoInfoRes''))
             else Inl (Exception msg_parse_json))))"

definition item_record :: "json \<Rightarrow> exn + json" where
  "item_record json_data =
     bindS (video_info_res json_data) (\<lambda>original_video_info.
       bindS (getitem original_video_info (str ''item_list'')) getitem0)"

text \<open>Methods called on a JSON value: only a string has \<open>replace\<close> and \<open>strip\<close>, only a dict \<open>get\<close>.\<close>

definition call_replace :: "json \<Rightarrow> pystr \<Rightarrow> pystr \<Rightarrow> exn + pystr" where
  "call_replace v old new =
     (case v of JStr s \<Rightarrow> Inr (str_replace old new s) | _ \<Rightarrow> Inl AttributeError)"

definition call_strip :: "json \<Rightarrow> exn + pystr" where
  "call_strip v = (case v of JStr s \<Rightarrow> Inr (str_strip s) | _ \<Rightarrow> Inl AttributeError)"

definition call_get :: "json \<Rightarrow> pystr \<Rightarrow> json \<Rightarrow> exn + json" where
  "call_get d k dflt =
     (case d of
        JObj kvs \<Rightarrow> Inr (case map_of kvs k of None \<Rightarrow> dflt | Some v \<Rightarrow> v)
      | _ \<Rightarrow> Inl AttributeError)"

definition url_list_first :: "json \<Rightarrow> exn + json" where
  "url_list_first data =
     bindS (getitem data (str ''video'')) (\<lambda>video.
       bindS (getitem video (str ''play_addr'')) (\<lambda>play_addr.
         bindS (getitem play_addr (str ''url_list'')) getitem0))"

definition illegal_chars :: pystr where
  "illegal_chars = [0x5C, 0x2F, 0x3A, 0x2A, 0x3F, 0x22, 0x3C, 0x3E, 0x7C]"

definition sanitize :: "pystr \<Rightarrow> pystr" where
  "sanitize desc = map (\<lambda>c. if c \<in> set illegal_chars then 0x5F else c) desc"

record video_info =
  url :: pystr
  title :: pystr
  video_id :: pystr

definition video_info_of :: "pystr \<Rightarrow> json \<Rightarrow> exn + video_info" where
  "video_info_of vid data =
     bindS (url_list_first data) (\<lambda>u.
       bindS (call_replace u (str ''playwm'') (str ''play'')) (\<lambda>video_url.
         bindS (call_get data (str ''desc'') (JStr [])) (\<lambda>d.
           bindS (call_strip d) (\<lambda>stripped.
             let desc = (if stripped \<noteq> [] then stripped else str ''douyin_'' @ vid)
             in Inr \<lparr>url = video_url, title = sanitize desc, video_id = vid\<rparr>))))"

definition parse_share_url :: "env \<Rightarrow> pyobject \<Rightarrow> video_info io" where
  "parse_share_url env self =
     bindE (lift (getattr self (str ''share_link''))) (\<lambda>share_link.
       case share_link of
         PPath _ \<Rightarrow> lift (Inl TypeError)
       | PStr text \<Rightarrow>
           bindE (fetch_detail_page env text) (\<lambda>(vid, page).
             lift (bindS (router_json env page) (\<lambda>json_data.
               bindS (item_record json_data) (\<lambda>data. video_info_of vid data)))))"

subsection \<open>download_video\<close>

definition msg_downloading :: pystr where
  "msg_downloading = [0x6B63, 0x5728, 0x4E0B, 0x8F7D, 0x89C6, 0x9891, 0x3A, 0x20]"

definition msg_downloaded :: pystr where
  "msg_downloaded = [0x89C6, 0x9891, 0x4E0B, 0x8F7D, 0x5B8C, 0x6210, 0x3A, 0x20]"

text \<open>The calls on the host context and on the file; each may raise, and then changes nothing.\<close>

definition do_info :: "env \<Rightarrow> pystr \<Rightarrow> unit io" where
  "do_info env m w =
     (case ctx_info env w m of
        Some e \<Rightarrow> (Inl e, w)
      | None \<Rightarrow> (Inr (), log_event (Info m) w))"

definition do_report_progress :: "env \<Rightarrow> int \<Rightarrow> int \<Rightarrow> unit io" where
  "do_report_progress env d t w =
     (case ctx_report_progress env w d t of
        Some e \<Rightarrow> (Inl e, w)
      | None \<Rightarrow> (Inr (), log_event (Progress d t) w))"

definition do_open :: "env \<Rightarrow> pystr \<Rightarrow> unit io" where
  "do_open env path w =
     (case open_wb env w path of
        Some e \<Rightarrow> (Inl e, w)
      | None \<Rightarrow> (Inr (), (log_event (FileOpen path) w)\<lparr>files := assign path [] (files w)\<rparr>))"

definition do_write :: "env \<Rightarrow> pystr \<Rightarrow> pybytes \<Rightarrow> unit io" where
  "do_write env path chunk w =
     (case file_write env w path chunk of
        Some e \<Rightarrow> (Inl e, w)
      | None \<Rightarrow>
          (Inr (),
           (log_event (FileWrite path chunk) w)
             \<lparr>files :=
                assign path ((case map_of (files w) path of None \<Rightarrow> [] | Some c \<Rightarrow> c) @ chunk)
                  (files w)\<rparr>))"

text \<open>\<open>int(response.headers.get('content-length', 0))\<close>\<close>

definition total_size_of :: "env \<Rightarrow> response \<Rightarrow> exn + int" where
  "total_size_of env response =
     (case r_content_length response of
        None \<Rightarrow> Inr 0
      | Some s \<Rightarrow> int_of_str env s)"

text \<open>
  The loop over the chunks, with the running count \<open>downloaded\<close>. The quotient
  \<open>progress\<close> the source computes is never used and is left out.
\<close>

fun download_loop :: "env \<Rightarrow> pystr \<Rightarrow> int \<Rightarrow> pybytes list \<Rightarrow> int \<Rightarrow> int io" where
  "download_loop env path total_size [] downloaded = ret downloaded"
| "download_loop env path total_size (chunk # rest) downloaded =
     (if chunk \<noteq> [] then
        bindE (do_write env path chunk) (\<lambda>_.
          if total_size > 0 then
            bindE (do_report_progress env (downloaded + int (length chunk)) total_size) (\<lambda>_.
              download_loop env path total_size rest (downloaded + int (length chunk)))
          else download_loop env path total_size rest (downloaded + int (length chunk)))
      else download_loop env path total_size rest downloaded)"

definition format_val :: "pyval \<Rightarrow> pystr" where
  "format_val v = (case v of PStr s \<Rightarrow> s | PPath p \<Rightarrow> p)"

definition download_video :: "env \<Rightarrow> pyobject \<Rightarrow> video_info \<Rightarrow> pystr io" where
  "download_video env self video_info =
     bindE (lift (getattr self (str ''cache_dir''))) (\<lambda>cache_dir.
       let filename = title video_info @ str ''.mp4'';
           filepath = format_val cache_dir @ str ''/'' @ filename
       in bindE (do_info env (msg_downloading @ title video_info)) (\<lambda>_.
            bindE (http_get env (url video_info)) (\<lambda>response.
              bindE (lift (raise_for_status response)) (\<lambda>_.
                bindE (lift (total_size_of env response)) (\<lambda>total_size.
                  bindE (do_open env filepath) (\<lambda>_.
                    bindE (download_loop env filepath total_size (r_chunks response) 0) (\<lambda>_.
                      bindE (lift (case r_stream_exc response of
                                     Some e \<Rightarrow> Inl e
                                   | None \<Rightarrow> Inr ())) (\<lambda>_.
                        bindE (do_info env (msg_downloaded @ filepath)) (\<lambda>_.
                          ret filepath)))))))))"

section \<open>The tools\<close>

definition msg_title :: pystr where
  "msg_title = [0x89C6, 0x9891, 0x6807, 0x9898, 0x3A, 0x20]"

definition msg_usage_tip :: pystr where
  "msg_usage_tip =
     [0x53EF, 0x4EE5, 0x76F4, 0x63A5, 0x4F7F, 0x7528, 0x6B64, 0x94FE, 0x63A5, 0x4E0B, 0x8F7D,
      0x65E0, 0x6C34, 0x5370, 0x89C6, 0x9891]"

definition msg_link_failed :: pystr where
  "msg_link_failed = [0x83B7, 0x53D6, 0x4E0B, 0x8F7D, 0x94FE, 0x63A5, 0x5931, 0x8D25, 0x3A, 0x20]"

text \<open>\<open>str(e)\<close>\<close>

definition exn_str :: "env \<Rightarrow> exn \<Rightarrow> pystr" where
  "exn_str env e =
     (case e of
        ValueError m \<Rightarrow> m
      | Exception m \<Rightarrow> m
      | Raised m \<Rightarrow> m
      | _ \<Rightarrow> builtin_text env e)"

text \<open>\<open>try: ... except Exception as e: ...\<close>\<close>

definition catchE :: "'a io \<Rightarrow> (exn \<Rightarrow> 'a io) \<Rightarrow> 'a io" where
  "catchE m h w = (case m w of (Inl e, w') \<Rightarrow> h e w' | (Inr x, w') \<Rightarrow> (Inr x, w'))"

definition error_envelope :: "pystr \<Rightarrow> json" where
  "error_envelope m = JObj [(str ''status'', JStr (str ''error'')), (str ''error'', JStr m)]"

definition get_douyin_download_link :: "env \<Rightarrow> pystr \<Rightarrow> pystr io" where
  "get_douyin_download_link env share_link =
     catchE
       (let processor = DouyinProcessor_init share_link
        in bindE (parse_share_url env processor) (\<lambda>video_info.
             ret (json_dumps env (JObj
               [(str ''status'', JStr (str ''success'')),
                (str ''video_id'', JStr (video_id video_info)),
                (str ''title'', JStr (title video_info)),
                (str ''download_url'', JStr (url video_info)),
                (str ''description'', JStr (msg_title @ title video_info)),
                (str ''usage_tip'', JStr msg_usage_tip)]))))
       (\<lambda>e. ret (json_dumps env (error_envelope (msg_link_failed @ exn_str env e))))"

definition parse_douyin_video_info :: "env \<Rightarrow> pystr \<Rightarrow> pystr io" where
  "parse_douyin_video_info env share_link =
     catchE
       (let processor = DouyinProcessor_init share_link
        in bindE (parse_share_url env processor) (\<lambda>video_info.
             ret (json_dumps env (JObj
               [(str ''video_id'', JStr (video_id video_info)),
                (str ''title'', JStr (title video_info)),
                (str ''download_url'', JStr (url video_info)),
                (str ''status'', JStr (str ''success''))]))))
       (\<lambda>e. ret (json_dumps env (error_envelope (exn_str env e))))"

definition download_douyin_video :: "env \<Rightarrow> pystr \<Rightarrow> pystr io" where
  "download_douyin_video env share_link =
     (let processor = DouyinProcessor_init share_link
      in bindE (parse_share_url env processor) (\<lambda>video_info.
           bindE (download_video env processor video_info) (\<lambda>video_path.
             ret (json_dumps env (JObj
               [(str ''status'', JStr (str ''success'')),
                (str ''video_path'', JStr video_path)])))))"

section \<open>Observations\<close>

text \<open>
  What the theorems read off a trace: the progress reports, the chunks written, whether
  every report carries the number of bytes written before it (counted from \<open>n\<close>), the
  running byte counts of a list of chunks, the content of a file, the events a run adds,
  and the events the loop adds when no call in it raises.
\<close>

fun progress_calls :: "event list \<Rightarrow> (int \<times> int) list" where
  "progress_calls [] = []"
| "progress_calls (Progress d t # es) = (d, t) # progress_calls es"
| "progress_calls (_ # es) = progress_calls es"

fun written_chunks :: "event list \<Rightarrow> pybytes list" where
  "written_chunks [] = []"
| "written_chunks (FileWrite p c # es) = c # written_chunks es"
| "written_chunks (_ # es) = written_chunks es"

fun reports_match :: "int \<Rightarrow> event list \<Rightarrow> bool" where
  "reports_match n [] = True"
| "reports_match n (FileWrite p c # es) = reports_match (n + int (length c)) es"
| "reports_match n (Progress d t # es) = (d = n \<and> reports_match n es)"
| "reports_match n (_ # es) = reports_match n es"

fun running_totals :: "int \<Rightarrow> pybytes list \<Rightarrow> int list" where
  "running_totals d [] = []"
| "running_totals d (c # cs) = (d + int (length c)) # running_totals (d + int (length c)) cs"

definition file_content :: "world \<Rightarrow> pystr \<Rightarrow> pybytes" where
  "file_content w p = (case map_of (files w) p of None \<Rightarrow> [] | Some c \<Rightarrow> c)"

definition new_events :: "world \<Rightarrow> world \<Rightarrow> event list" where
  "new_events w w' = drop (length (trace w)) (trace w')"

fun loop_events :: "pystr \<Rightarrow> int \<Rightarrow> pybytes list \<Rightarrow> int \<Rightarrow> event list" where
  "loop_events path total_size [] d = []"
| "loop_events path total_size (c # cs) d =
     (if c \<noteq> [] then
        FileWrite path c # (if total_size > 0 then [Progress (d + int (length c)) total_size] else []) @
          loop_events path total_size cs (d + int (length c))
      else loop_events path total_size cs d)"

section \<open>Sample runs\<close>

text \<open>
  A share text, a record and the collaborators' answers, small enough to run by hand;
  the theorems below are instantiated on them.
\<close>

definition empty_world :: world where
  "empty_world = \<lparr>trace = [], files = [], dirs = []\<rparr>"

definition sample_data :: json where
  "sample_data =
     JObj [(str ''video'', JObj [(str ''play_addr'',
              JObj [(str ''url_list'', JArr [JStr (str ''http://h/playwm/x'')])])]),
           (str ''desc'', JStr (str '' A:B ''))]"

definition sample_payload :: json where
  "sample_payload =
     JObj [(str ''loaderData'',
       JObj [(str ''video_(id)/page'',
         JObj [(str ''videoInfoRes'', JObj [(str ''item_list'', JArr [sample_data])])])])]"

definition sample_response :: response where
  "sample_response =
     \<lparr>r_url = str ''https://h/video/71/?a=1'', r_status_code = 200,
      r_text = str ''window._ROUTER_DATA = {}</script>'',
      r_content_length = Some (str ''5''), r_chunks = [''ab'', [], ''cde''],
      r_stream_exc = None\<rparr>"

text \<open>
  Collaborators that answer every request with \<open>response\<close>, parse \<^verbatim>\<open>{}\<close> to \<open>payload\<close>,
  read \<^verbatim>\<open>5\<close> as the integer 5, and never fail on the file or the host context.
\<close>

definition env_of :: "json \<Rightarrow> response \<Rightarrow> env" where
  "env_of payload response =
     \<lparr>requests_get = (\<lambda>w u. Inr response),
      json_loads = (\<lambda>s. if s = str ''{}'' then Inr payload else Inl (Raised (str ''Expecting value''))),
      json_dumps = (\<lambda>j. case j of JObj ((k, JStr v) # (k', JStr v') # _) \<Rightarrow> v @ [0x3A] @ v' | _ \<Rightarrow> []),
      int_of_str = (\<lambda>s. if s = str ''5'' then Inr 5 else Inl (ValueError (str ''invalid literal''))),
      open_wb = (\<lambda>w p. None),
      file_write = (\<lambda>w p c. None),
      ctx_info = (\<lambda>w m. None),
      ctx_report_progress = (\<lambda>w d t. None),
      builtin_text = (\<lambda>e. [])\<rparr>"

definition sample_env :: env where
  "sample_env = env_of sample_payload sample_response"

text \<open>A record whose description is blank, under the second key.\<close>

definition blank_data :: json where
  "blank_data =
     JObj [(str ''video'', JObj [(str ''play_addr'',
              JObj [(str ''url_list'', JArr [JStr (str ''http://h/playwm/x'')])])]),
           (str ''desc'', JStr (str ''  ''))]"

definition blank_payload :: json where
  "blank_payload =
     JObj [(str ''loaderData'',
       JObj [(str ''note_(id)/page'',
         JObj [(str ''videoInfoRes'', JObj [(str ''item_list'', JArr [blank_data])])])])]"

definition blank_env :: env where
  "blank_env = env_of blank_payload sample_response"

definition blank_info :: video_info where
  "blank_info =
     \<lparr>url = str ''http://h/play/x'', title = str ''douyin_71'', video_id = str ''71''\<rparr>"

text \<open>A stream of unknown length, a stream shorter than it declares, a directory that is missing.\<close>

definition unknown_env :: env where
  "unknown_env = env_of sample_payload (sample_response\<lparr>r_content_length := None\<rparr>)"

definition short_env :: env where
  "short_env = env_of sample_payload (sample_response\<lparr>r_chunks := [''ab'']\<rparr>)"

definition nodir_env :: env where
  "nodir_env = sample_env\<lparr>open_wb := (\<lambda>w p. Some (Raised (str ''No such file or directory'')))\<rparr>"

definition sample_path :: pystr where
  "sample_path = str ''../tmp/A_B.mp4''"

text \<open>The worlds the sample downloads leave behind, started in the empty world.\<close>

definition sample_download_world :: world where
  "sample_download_world =
     \<lparr>trace = [Info (msg_downloading @ str ''A_B''), HttpGet (str ''http://h/play/x''),
               FileOpen sample_path, FileWrite sample_path ''ab'', Progress 2 5,
               FileWrite sample_path ''cde'', Progress 5 5,
               Info (msg_downloaded @ sample_path)],
      files = [(sample_path, ''abcde'')], dirs = []\<rparr>"

definition unknown_download_world :: world where
  "unknown_download_world =
     \<lparr>trace = [Info (msg_downloading @ str ''A_B''), HttpGet (str ''http://h/play/x''),
               FileOpen sample_path, FileWrite sample_path ''ab'', FileWrite sample_path ''cde'',
               Info (msg_downloaded @ sample_path)],
      files = [(sample_path, ''abcde'')], dirs = []\<rparr>"

definition short_download_world :: world where
  "short_download_world =
     \<lparr>trace = [Info (msg_downloading @ str ''A_B''), HttpGet (str ''http://h/play/x''),
               FileOpen sample_path, FileWrite sample_path ''ab'', Progress 2 5,
               Info (msg_downloaded @ sample_path)],
      files = [(sample_path, ''ab'')], dirs = []\<rparr>"

definition nodir_world :: world where
  "nodir_world =
     \<lparr>trace = [HttpGet (str ''https://v.dy.com/AB/''),
               HttpGet (str ''https://www.iesdouyin.com/share/video/71''),
               Info (msg_downloading @ str ''A_B''), HttpGet (str ''http://h/play/x'')],
      files = [], dirs = []\<rparr>"

text \<open>A world in which the cache directory holds a downloaded file.\<close>

definition cached_world :: world where
  "cached_world = \<lparr>trace = [], files = [(sample_path, ''abcde'')], dirs = [str ''../tmp'']\<rparr>"

definition sample_text :: pystr where
  "sample_text = str ''see https://v.dy.com/AB/ !''"

definition sample_info :: video_info where
  "sample_info = \<lparr>url = str ''http://h/play/x'', title = str ''A_B'', video_id = str ''71''\<rparr>"

definition sample_world :: world where
  "sample_world =
     \<lparr>trace = [HttpGet (str ''https://v.dy.com/AB/''),
               HttpGet (str ''https://www.iesdouyin.com/share/video/71'')],
      files = [], dirs = []\<rparr>"

section \<open>Lemmas\<close>

lemma bindS_Inr_iff: "bindS r f = Inr y \<longleftrightarrow> (\<exists>x. r = Inr x \<and> f x = Inr y)"
  by (cases r) (auto simp: bindS_def)

lemma bindE_Inr_iff:
  "bindE m f w = (Inr y, w'') \<longleftrightarrow> (\<exists>x w'. m w = (Inr x, w') \<and> f x w' = (Inr y, w''))"
  by (auto simp: bindE_def split: prod.splits sum.splits)

lemma lift_eq_iff: "lift r w = (r', w') \<longleftrightarrow> r = r' \<and> w = w'"
  by (auto simp: lift_def)

lemma attribute_names_differ: "str ''share_link'' \<noteq> str ''cache_dir''" "str ''temp_dir'' \<noteq> str ''cache_dir''"
  "str ''temp_dir'' \<noteq> str ''share_link''"
  by (simp_all add: str_def)

lemma getattr_init_share_link:
  "getattr (DouyinProcessor_init s) (str ''share_link'') = Inr (PStr s)"
  by (simp add: getattr_def DouyinProcessor_init_def setattr_def assign_def)

lemma getattr_init_cache_dir:
  "getattr (DouyinProcessor_init s) (str ''cache_dir'') = Inr (PStr (str ''../tmp''))"
  using attribute_names_differ
  by (simp add: getattr_def DouyinProcessor_init_def setattr_def assign_def)

lemma parse_share_url_init:
  "parse_share_url env (DouyinProcessor_init text) w =
     bindE (fetch_detail_page env text) (\<lambda>(vid, page).
       lift (bindS (router_json env page) (\<lambda>json_data.
         bindS (item_record json_data) (\<lambda>data. video_info_of vid data)))) w"
  by (simp add: parse_share_url_def getattr_init_share_link bindE_def lift_def)

lemma parse_share_url_success:
  assumes "parse_share_url env (DouyinProcessor_init text) w = (Inr vi, w')"
  shows "\<exists>vid page json_data data.
           fetch_detail_page env text w = (Inr (vid, page), w') \<and>
           router_json env page = Inr json_data \<and>
           item_record json_data = Inr data \<and>
           video_info_of vid data = Inr vi"
  using assms unfolding parse_share_url_init
  by (auto simp: bindE_Inr_iff lift_eq_iff bindS_Inr_iff)

lemma call_replace_Inr_iff:
  "call_replace v old new = Inr y \<longleftrightarrow> (\<exists>s. v = JStr s \<and> y = str_replace old new s)"
  by (cases v) (auto simp: call_replace_def)

lemma call_strip_Inr_iff: "call_strip v = Inr y \<longleftrightarrow> (\<exists>s. v = JStr s \<and> y = str_strip s)"
  by (cases v) (auto simp: call_strip_def)

lemma video_info_of_success:
  assumes "video_info_of vid data = Inr vi"
  shows "\<exists>u d. url_list_first data = Inr (JStr u) \<and>
           call_get data (str ''desc'') (JStr []) = Inr (JStr d) \<and>
           vi = \<lparr>url = str_replace (str ''playwm'') (str ''play'') u,
                 title = sanitize (if str_strip d \<noteq> [] then str_strip d else str ''douyin_'' @ vid),
                 video_id = vid\<rparr>"
  using assms unfolding video_info_of_def
  by (auto simp: bindS_Inr_iff call_replace_Inr_iff call_strip_Inr_iff Let_def)

lemma sanitize_clean: "set (sanitize d) \<inter> set illegal_chars = {}"
  by (auto simp: sanitize_def illegal_chars_def)

lemma map_of_assign: "map_of (assign k v kvs) k' = (if k' = k then Some v else map_of kvs k')"
  by (induction kvs) (auto simp: assign_def)

lemma file_content_assign:
  "file_content (w\<lparr>files := assign p c (files w)\<rparr>) q = (if q = p then c else file_content w q)"
  by (simp add: file_content_def map_of_assign)

lemma file_content_log [simp]: "file_content (log_event ev w) q = file_content w q"
  by (simp add: file_content_def log_event_def)

lemma trace_log [simp]: "trace (log_event ev w) = trace w @ [ev]"
  by (simp add: log_event_def)

lemma do_write_cases:
  "do_write env path chunk w = (r, w') \<Longrightarrow>
     (\<exists>e. r = Inl e \<and> w' = w) \<or>
     (r = Inr () \<and> trace w' = trace w @ [FileWrite path chunk] \<and>
      file_content w' path = file_content w path @ chunk)"
  by (auto simp: do_write_def log_event_def file_content_def map_of_assign split: option.splits)

lemma do_report_cases:
  "do_report_progress env d t w = (r, w') \<Longrightarrow>
     (\<exists>e. r = Inl e \<and> w' = w) \<or>
     (r = Inr () \<and> trace w' = trace w @ [Progress d t] \<and> files w' = files w)"
  by (auto simp: do_report_progress_def log_event_def split: option.splits)

lemma do_info_cases:
  "do_info env m w = (r, w') \<Longrightarrow>
     (\<exists>e. r = Inl e \<and> w' = w) \<or>
     (r = Inr () \<and> trace w' = trace w @ [Info m] \<and> files w' = files w)"
  by (auto simp: do_info_def log_event_def split: option.splits)

lemma do_open_cases:
  "do_open env p w = (r, w') \<Longrightarrow>
     (\<exists>e. r = Inl e \<and> w' = w) \<or>
     (r = Inr () \<and> trace w' = trace w @ [FileOpen p] \<and> file_content w' p = [])"
  by (auto simp: do_open_def log_event_def file_content_def map_of_assign split: option.splits)

lemma file_content_cong: "files w' = files w \<Longrightarrow> file_content w' p = file_content w p"
  by (simp add: file_content_def)

lemma download_loop_success:
  "download_loop env path total_size chunks d w = (Inr d', w') \<Longrightarrow>
     trace w' = trace w @ loop_events path total_size chunks d \<and>
     d' = d + int (length (concat chunks)) \<and>
     file_content w' path = file_content w path @ concat chunks"
proof (induction chunks arbitrary: d w)
  case Nil
  then show ?case by (simp add: ret_def)
next
  case (Cons c cs)
  show ?case
  proof (cases "c = []")
    case True
    with Cons.prems have "download_loop env path total_size cs d w = (Inr d', w')" by simp
    from Cons.IH [OF this] True show ?thesis by simp
  next
    case False
    from Cons.prems False obtain w1 where
      wr: "do_write env path c w = (Inr (), w1)" and
      rest: "(if total_size > 0 then
               bindE (do_report_progress env (d + int (length c)) total_size) (\<lambda>_.
                 download_loop env path total_size cs (d + int (length c)))
             else download_loop env path total_size cs (d + int (length c))) w1 = (Inr d', w')"
      by (auto simp: bindE_Inr_iff)
    from do_write_cases [OF wr] have w1:
      "trace w1 = trace w @ [FileWrite path c]" "file_content w1 path = file_content w path @ c"
      by auto
    show ?thesis
    proof (cases "total_size > 0")
      case True
      with rest obtain w2 where
        rp: "do_report_progress env (d + int (length c)) total_size w1 = (Inr (), w2)" and
        lp: "download_loop env path total_size cs (d + int (length c)) w2 = (Inr d', w')"
        by (auto simp: bindE_Inr_iff)
      from do_report_cases [OF rp] have w2:
        "trace w2 = trace w1 @ [Progress (d + int (length c)) total_size]" "files w2 = files w1"
        by auto
      from Cons.IH [OF lp] w1 w2 False True show ?thesis
        by (simp add: file_content_cong [OF w2(2)])
    next
      case nonpos: False
      with rest have lp: "download_loop env path total_size cs (d + int (length c)) w1 = (Inr d', w')"
        by simp
      from Cons.IH [OF lp] w1 False nonpos show ?thesis by simp
    qed
  qed
qed

lemma reports_match_append:
  "reports_match n (es @ es') \<longleftrightarrow>
     reports_match n es \<and> reports_match (n + int (length (concat (written_chunks es)))) es'"
  by (induction n es rule: reports_match.induct) (auto simp: algebra_simps)

lemma download_loop_reports:
  "download_loop env path total_size chunks d w = (r, w') \<Longrightarrow>
     \<exists>es. trace w' = trace w @ es \<and> reports_match d es"
proof (induction chunks arbitrary: d w)
  case Nil
  then show ?case by (simp add: ret_def)
next
  case (Cons c cs)
  show ?case
  proof (cases "c = []")
    case True
    with Cons.prems have "download_loop env path total_size cs d w = (r, w')" by simp
    from Cons.IH [OF this] show ?thesis .
  next
    case False
    obtain r1 w1 where wr: "do_write env path c w = (r1, w1)" by (cases "do_write env path c w")
    from do_write_cases [OF wr] show ?thesis
    proof
      assume "\<exists>e. r1 = Inl e \<and> w1 = w"
      with Cons.prems False wr have "w' = w" by (auto simp: bindE_def)
      then show ?thesis by simp
    next
      assume ok: "r1 = Inr () \<and> trace w1 = trace w @ [FileWrite path c] \<and>
        file_content w1 path = file_content w path @ c"
      show ?thesis
      proof (cases "total_size > 0")
        case True
        obtain r2 w2 where rp: "do_report_progress env (d + int (length c)) total_size w1 = (r2, w2)"
          by (cases "do_report_progress env (d + int (length c)) total_size w1")
        from do_report_cases [OF rp] show ?thesis
        proof
          assume "\<exists>e. r2 = Inl e \<and> w2 = w1"
          with Cons.prems False True wr ok rp have "w' = w1" by (auto simp: bindE_def)
          with ok have "trace w' = trace w @ [FileWrite path c]" by simp
          then show ?thesis by (intro exI [of _ "[FileWrite path c]"]) simp
        next
          assume ok2: "r2 = Inr () \<and> trace w2 = trace w1 @ [Progress (d + int (length c)) total_size] \<and>
            files w2 = files w1"
          with Cons.prems False True wr ok rp
          have "download_loop env path total_size cs (d + int (length c)) w2 = (r, w')"
            by (auto simp: bindE_def)
          from Cons.IH [OF this] obtain es where
            "trace w' = trace w2 @ es" "reports_match (d + int (length c)) es" by blast
          with ok ok2 show ?thesis
            by (intro exI [of _ "FileWrite path c # Progress (d + int (length c)) total_size # es"]) simp
        qed
      next
        case nonpos: False
        with Cons.prems False wr ok
        have "download_loop env path total_size cs (d + int (length c)) w1 = (r, w')"
          by (auto simp: bindE_def)
        from Cons.IH [OF this] obtain es where
          "trace w' = trace w1 @ es" "reports_match (d + int (length c)) es" by blast
        with ok show ?thesis by (intro exI [of _ "FileWrite path c # es"]) simp
      qed
    qed
  qed
qed

lemma progress_calls_loop_events:
  "progress_calls (loop_events path total_size chunks d) =
     (if total_size > 0 then map (\<lambda>x. (x, total_size)) (running_totals d (filter (\<lambda>c. c \<noteq> []) chunks))
      else [])"
  by (induction chunks arbitrary: d) auto

lemma written_chunks_loop_events:
  "written_chunks (loop_events path total_size chunks d) = filter (\<lambda>c. c \<noteq> []) chunks"
  by (induction chunks arbitrary: d) auto

lemma progress_calls_append: "progress_calls (es @ es') = progress_calls es @ progress_calls es'"
  by (induction es rule: progress_calls.induct) auto

lemma written_chunks_append: "written_chunks (es @ es') = written_chunks es @ written_chunks es'"
  by (induction es rule: written_chunks.induct) auto

lemma concat_filter_nonempty: "concat (filter (\<lambda>c. c \<noteq> []) cs) = concat cs"
  by (induction cs) auto

lemma running_totals_sorted: "sorted (running_totals d cs)"
proof (induction cs arbitrary: d)
  case Nil
  then show ?case by simp
next
  case (Cons c cs)
  have "\<forall>x \<in> set (running_totals e cs). e \<le> x" for e
  proof (induction cs arbitrary: e)
    case Nil
    then show ?case by simp
  next
    case (Cons a as)
    then show ?case by fastforce
  qed
  with Cons show ?case by simp
qed

lemma running_totals_Nil_iff: "running_totals d cs = [] \<longleftrightarrow> cs = []"
  by (cases cs) auto

lemma running_totals_last:
  "cs \<noteq> [] \<Longrightarrow> last (running_totals d cs) = d + int (length (concat cs))"
proof (induction cs arbitrary: d)
  case Nil
  then show ?case by simp
next
  case (Cons c cs)
  then show ?case
    by (cases "cs = []") (simp_all add: running_totals_Nil_iff algebra_simps)
qed


lemma download_video_success:
  assumes "download_video env (DouyinProcessor_init s) vi w = (Inr p, w')"
  shows "\<exists>response total_size.
           p = str ''../tmp'' @ str ''/'' @ title vi @ str ''.mp4'' \<and>
           requests_get env (log_event (Info (msg_downloading @ title vi)) w) (url vi) =
             Inr response \<and>
           total_size_of env response = Inr total_size \<and>
           trace w' =
             trace w @ [Info (msg_downloading @ title vi), HttpGet (url vi), FileOpen p] @
               loop_events p total_size (r_chunks response) 0 @ [Info (msg_downloaded @ p)] \<and>
           file_content w' p = concat (r_chunks response)"
proof -
  let ?p = "str ''../tmp'' @ str ''/'' @ title vi @ str ''.mp4''"
  from assms obtain w1 response w2 total_size w3 d w4 where
    info1: "do_info env (msg_downloading @ title vi) w = (Inr (), w1)" and
    get: "http_get env (url vi) w1 = (Inr response, w2)" and
    total: "total_size_of env response = Inr total_size" and
    opn: "do_open env ?p w2 = (Inr (), w3)" and
    loop: "download_loop env ?p total_size (r_chunks response) 0 w3 = (Inr d, w4)" and
    info2: "do_info env (msg_downloaded @ ?p) w4 = (Inr (), w')" and
    p: "p = ?p"
    unfolding download_video_def
    by (auto simp: getattr_init_cache_dir bindE_Inr_iff lift_eq_iff Let_def format_val_def
        ret_def)
  from do_info_cases [OF info1] have w1: "trace w1 = trace w @ [Info (msg_downloading @ title vi)]"
    and w1': "w1 = log_event (Info (msg_downloading @ title vi)) w"
    using info1 by (auto simp: do_info_def split: option.splits)
  from get have rq: "requests_get env w1 (url vi) = Inr response"
    and w2: "trace w2 = trace w1 @ [HttpGet (url vi)]"
    by (auto simp: http_get_def)
  from do_open_cases [OF opn] have w3: "trace w3 = trace w2 @ [FileOpen ?p]"
    "file_content w3 ?p = []" by auto
  from download_loop_success [OF loop] have w4:
    "trace w4 = trace w3 @ loop_events ?p total_size (r_chunks response) 0"
    "file_content w4 ?p = file_content w3 ?p @ concat (r_chunks response)" by auto
  from do_info_cases [OF info2] have w5: "trace w' = trace w4 @ [Info (msg_downloaded @ ?p)]"
    "files w' = files w4" by auto
  from w1 w2 w3 w4 w5 have
    "trace w' =
       trace w @ [Info (msg_downloading @ title vi), HttpGet (url vi), FileOpen ?p] @
         loop_events ?p total_size (r_chunks response) 0 @ [Info (msg_downloaded @ ?p)]"
    by simp
  moreover from w3 w4 file_content_cong [OF w5(2)]
  have "file_content w' ?p = concat (r_chunks response)" by simp
  ultimately show ?thesis using p rq w1' total by blast
qed

text \<open>What a computation adds to the trace, whatever its outcome.\<close>

definition emits :: "(event list \<Rightarrow> bool) \<Rightarrow> 'a io \<Rightarrow> bool" where
  "emits P m = (\<forall>w r w'. m w = (r, w') \<longrightarrow> (\<exists>es. trace w' = trace w @ es \<and> P es))"

definition silent :: "event list \<Rightarrow> bool" where
  "silent es = (written_chunks es = [] \<and> progress_calls es = [])"

lemma silent_reports_match: "silent es \<Longrightarrow> reports_match n es"
  unfolding silent_def
  by (induction n es rule: reports_match.induct) auto

lemma emits_bindE:
  assumes "emits P m" "\<And>x. emits Q (f x)"
    and "\<And>es. P es \<Longrightarrow> R es" "\<And>es es'. P es \<Longrightarrow> Q es' \<Longrightarrow> R (es @ es')"
  shows "emits R (bindE m f)"
  unfolding emits_def
proof (intro allI impI)
  fix w r w'
  assume run: "bindE m f w = (r, w')"
  obtain r1 w1 where m: "m w = (r1, w1)" by (cases "m w")
  with assms(1) obtain es where es: "trace w1 = trace w @ es" "P es"
    unfolding emits_def by blast
  show "\<exists>es. trace w' = trace w @ es \<and> R es"
  proof (cases r1)
    case (Inl e)
    with run m have "w' = w1" by (simp add: bindE_def)
    with es assms(3) show ?thesis by blast
  next
    case (Inr x)
    with run m have "f x w1 = (r, w')" by (simp add: bindE_def)
    with assms(2) obtain es' where "trace w' = trace w1 @ es'" "Q es'"
      unfolding emits_def by blast
    with es assms(4) have "trace w' = trace w @ (es @ es')" "R (es @ es')" by simp_all
    then show ?thesis by blast
  qed
qed

lemma silent_append: "silent es \<Longrightarrow> silent es' \<Longrightarrow> silent (es @ es')"
  by (simp add: silent_def written_chunks_append progress_calls_append)

lemma emits_silent_bindE:
  "emits silent m \<Longrightarrow> (\<And>x. emits silent (f x)) \<Longrightarrow> emits silent (bindE m f)"
  by (rule emits_bindE [where P = silent and Q = silent]) (auto simp: silent_append)

lemma emits_silent_then:
  "emits silent m \<Longrightarrow> (\<And>x. emits (reports_match 0) (f x)) \<Longrightarrow>
     emits (reports_match 0) (bindE m f)"
  by (rule emits_bindE [where P = silent and Q = "reports_match 0"])
     (auto simp: silent_reports_match reports_match_append silent_def)

lemma emits_then_silent:
  "emits (reports_match 0) m \<Longrightarrow> (\<And>x. emits silent (f x)) \<Longrightarrow>
     emits (reports_match 0) (bindE m f)"
  by (rule emits_bindE [where P = "reports_match 0" and Q = silent])
     (auto simp: silent_reports_match reports_match_append)

lemma emits_lift: "emits silent (lift r)"
  by (simp add: emits_def lift_def silent_def)

lemma emits_ret: "emits silent (ret x)"
  by (simp add: emits_def ret_def silent_def)

lemma emits_do_info: "emits silent (do_info env m)"
  by (auto simp: emits_def do_info_def silent_def split: option.splits)

lemma emits_do_open: "emits silent (do_open env p)"
  by (auto simp: emits_def do_open_def silent_def split: option.splits)

lemma emits_http_get: "emits silent (http_get env u)"
  by (auto simp: emits_def http_get_def silent_def)

lemma emits_download_loop: "emits (reports_match 0) (download_loop env p t cs 0)"
  unfolding emits_def using download_loop_reports by blast

lemma download_video_reports:
  "emits (reports_match 0) (download_video env self vi)"
  unfolding download_video_def Let_def
  by (intro emits_silent_then emits_then_silent emits_silent_bindE emits_lift emits_ret
      emits_do_info emits_do_open emits_http_get emits_download_loop)

lemmas run_defs =
  bindE_def lift_def ret_def do_info_def http_get_def
  env_of_def raise_for_status_def total_size_of_def do_open_def do_write_def
  do_report_progress_def log_event_def assign_def format_val_def Let_def str_def
  sample_path_def sample_info_def sample_response_def empty_world_def msg_downloading_def
  msg_downloaded_def

lemma sample_download:
  "download_video sample_env (DouyinProcessor_init sample_text) sample_info empty_world =
     (Inr sample_path, sample_download_world)"
  unfolding download_video_def getattr_init_cache_dir
  by (simp add: run_defs sample_env_def sample_download_world_def)

lemma unknown_download:
  "download_video unknown_env (DouyinProcessor_init sample_text) sample_info empty_world =
     (Inr sample_path, unknown_download_world)"
  unfolding download_video_def getattr_init_cache_dir
  by (simp add: run_defs unknown_env_def unknown_download_world_def)

lemma short_download:
  "download_video short_env (DouyinProcessor_init sample_text) sample_info empty_world =
     (Inr sample_path, short_download_world)"
  unfolding download_video_def getattr_init_cache_dir
  by (simp add: run_defs short_env_def short_download_world_def)

lemma nodir_download:
  "download_video nodir_env (DouyinProcessor_init sample_text) sample_info sample_world =
     (Inl (Raised (str ''No such file or directory'')), nodir_world)"
  unfolding download_video_def getattr_init_cache_dir
  by (simp add: run_defs nodir_env_def sample_env_def sample_world_def nodir_world_def)

lemma new_events_append: "trace w' = trace w @ es \<Longrightarrow> new_events w w' = es"
  by (simp add: new_events_def)

text \<open>What a completed download has done, in terms of the response and its declared size.\<close>

lemma download_video_observed:
  assumes "download_video env (DouyinProcessor_init s) vi w = (Inr p, w')"
  shows "\<exists>response total_size.
           requests_get env (log_event (Info (msg_downloading @ title vi)) w) (url vi) =
             Inr response \<and>
           total_size_of env response = Inr total_size \<and>
           file_content w' p = concat (r_chunks response) \<and>
           written_chunks (new_events w w') = filter (\<lambda>c. c \<noteq> []) (r_chunks response) \<and>
           progress_calls (new_events w w') =
             (if 0 < total_size then
                map (\<lambda>d. (d, total_size))
                  (running_totals 0 (filter (\<lambda>c. c \<noteq> []) (r_chunks response)))
              else [])"
proof -
  from download_video_success [OF assms] obtain response total_size where
    h: "requests_get env (log_event (Info (msg_downloading @ title vi)) w) (url vi) =
          Inr response"
       "total_size_of env response = Inr total_size"
       "trace w' =
          trace w @ [Info (msg_downloading @ title vi), HttpGet (url vi), FileOpen p] @
            loop_events p total_size (r_chunks response) 0 @ [Info (msg_downloaded @ p)]"
       "file_content w' p = concat (r_chunks response)"
    by blast
  from new_events_append [OF h(3)] have
    "written_chunks (new_events w w') = filter (\<lambda>c. c \<noteq> []) (r_chunks response)"
    "progress_calls (new_events w w') =
       (if 0 < total_size then
          map (\<lambda>d. (d, total_size))
            (running_totals 0 (filter (\<lambda>c. c \<noteq> []) (r_chunks response)))
        else [])"
    by (simp_all add: written_chunks_append progress_calls_append written_chunks_loop_events
        progress_calls_loop_events)
  with h show ?thesis by blast
qed

lemma parse_share_url_no_match:
  "findall_urls text = [] \<Longrightarrow>
     parse_share_url env (DouyinProcessor_init text) w = (Inl (ValueError msg_no_link), w)"
  by (simp add: parse_share_url_init fetch_detail_page_def bindE_def lift_def)

lemma sample_parse:
  "parse_share_url sample_env (DouyinProcessor_init sample_text) empty_world =
     (Inr sample_info, sample_world)"
  by (simp add: parse_share_url_init fetch_detail_page_def sample_text_def sample_env_def
      env_of_def str_def url_match_def url_atoms.simps bindE_def http_get_def lift_def ret_def log_event_def
      empty_world_def sample_response_def raise_for_status_def video_id_of_url_def
      str_strip_chars_def router_json_def router_match_def is_space_def str_strip_def
      sample_payload_def item_record_def video_info_res_def bindS_def video_id_page_key_def
      note_id_page_key_def sample_data_def video_info_of_def url_list_first_def call_replace_def
      call_get_def call_strip_def str_replace_def sanitize_def illegal_chars_def sample_info_def
      sample_world_def is_alpha_def is_digit_def is_class3_def is_class4_def Let_def)

lemma blank_parse:
  "parse_share_url blank_env (DouyinProcessor_init sample_text) empty_world =
     (Inr blank_info, sample_world)"
  by (simp add: parse_share_url_init fetch_detail_page_def sample_text_def blank_env_def
      env_of_def str_def url_match_def url_atoms.simps bindE_def http_get_def lift_def ret_def
      log_event_def empty_world_def sample_response_def raise_for_status_def video_id_of_url_def
      str_strip_chars_def router_json_def router_match_def is_space_def str_strip_def
      blank_payload_def item_record_def video_info_res_def bindS_def video_id_page_key_def
      note_id_page_key_def blank_data_def video_info_of_def url_list_first_def call_replace_def
      call_get_def call_strip_def str_replace_def sanitize_def illegal_chars_def blank_info_def
      sample_world_def is_alpha_def is_digit_def is_class3_def is_class4_def Let_def)

text \<open>The finalizer does delete when an instance has a \<open>temp_dir\<close> that exists.\<close>

lemma finalizer_with_temp_dir:
  "DouyinProcessor_del
     (setattr (DouyinProcessor_init sample_text) (str ''temp_dir'') (PPath (str ''../tmp'')))
     cached_world = empty_world"
  by (simp add: DouyinProcessor_del_def hasattr_def setattr_def assign_def path_exists_def
      rmtree_def below_def cached_world_def empty_world_def sample_path_def str_def)

lemma nodir_parse:
  "parse_share_url nodir_env (DouyinProcessor_init sample_text) empty_world =
     (Inr sample_info, sample_world)"
  by (simp add: parse_share_url_init fetch_detail_page_def sample_text_def nodir_env_def
      sample_env_def env_of_def str_def url_match_def url_atoms.simps bindE_def http_get_def
      lift_def ret_def log_event_def empty_world_def sample_response_def raise_for_status_def
      video_id_of_url_def str_strip_chars_def router_json_def router_match_def is_space_def
      str_strip_def sample_payload_def item_record_def video_info_res_def bindS_def
      video_id_page_key_def note_id_page_key_def sample_data_def video_info_of_def
      url_list_first_def call_replace_def call_get_def call_strip_def str_replace_def
      sanitize_def illegal_chars_def sample_info_def sample_world_def is_alpha_def is_digit_def
      is_class3_def is_class4_def Let_def)

lemma no_link_findall: "findall_urls (str ''no link'') = []"
  by (simp add: str_def url_match_def)

section \<open>The claims\<close>



text \<open>
  C3. The title of every \<open>video_info\<close> a successful resolution returns contains none of
  the characters \<^verbatim>\<open>\ / : * ? " < > |\<close>.
\<close>

theorem title_has_no_illegal_character:
  assumes "parse_share_url env (DouyinProcessor_init text) w = (Inr vi, w')"
  shows "set (title vi) \<inter> set illegal_chars = {}"
proof -
  from parse_share_url_success [OF assms] obtain vid data where
    "video_info_of vid data = Inr vi"
    by blast
  from video_info_of_success [OF this] obtain d where
    "title vi = sanitize (if str_strip d \<noteq> [] then str_strip d else str ''douyin_'' @ vid)"
    by auto
  then show ?thesis by (simp only: sanitize_clean)
qed

theorem title_has_no_illegal_character_witness:
  "parse_share_url sample_env (DouyinProcessor_init sample_text) empty_world =
     (Inr sample_info, sample_world) \<and>
   set (title sample_info) \<inter> set illegal_chars = {}"
  using title_has_no_illegal_character [OF sample_parse] sample_parse by simp

text \<open>
  C4. When the share-link pattern finds no match in the share text, the resolution raises
  \<open>ValueError\<close> with the "no valid link" message and leaves the world as it was: no HTTP
  request has been made.
\<close>

theorem no_link_raises_without_request:
  assumes "findall_urls text = []"
  shows "parse_share_url env (DouyinProcessor_init text) w = (Inl (ValueError msg_no_link), w)"
  using assms by (rule parse_share_url_no_match)

theorem no_link_raises_without_request_witness:
  "findall_urls (str ''no link'') = [] \<and>
   parse_share_url sample_env (DouyinProcessor_init (str ''no link'')) empty_world =
     (Inl (ValueError msg_no_link), empty_world)"
  using no_link_raises_without_request [OF no_link_findall] no_link_findall by simp

text \<open>
  C8. When the resolution succeeds the record is a dict. If it has no \<open>desc\<close>, or a
  \<open>desc\<close> that is blank after stripping, the title is \<open>douyin_\<close> followed by the video
  id, and otherwise the stripped description, in both cases with each of the characters
  \<^verbatim>\<open>\ / : * ? " < > |\<close> replaced by an underscore. A \<open>desc\<close> that is present is a string.
\<close>

theorem title_is_description_or_default:
  assumes "parse_share_url env (DouyinProcessor_init text) w = (Inr vi, w')"
  shows "\<exists>vid page json_data kvs.
           fetch_detail_page env text w = (Inr (vid, page), w') \<and>
           router_json env page = Inr json_data \<and>
           item_record json_data = Inr (JObj kvs) \<and>
           video_id vi = vid \<and>
           (case map_of kvs (str ''desc'') of
              None \<Rightarrow>
                title vi =
                  map (\<lambda>c. if c \<in> {0x5C, 0x2F, 0x3A, 0x2A, 0x3F, 0x22, 0x3C, 0x3E, 0x7C} then 0x5F else c)
                    (str ''douyin_'' @ vid)
            | Some d \<Rightarrow>
                \<exists>s. d = JStr s \<and>
                  title vi =
                    map (\<lambda>c. if c \<in> {0x5C, 0x2F, 0x3A, 0x2A, 0x3F, 0x22, 0x3C, 0x3E, 0x7C} then 0x5F else c)
                      (if str_strip s = [] then str ''douyin_'' @ vid else str_strip s))"
proof -
  have san: "sanitize x =
      map (\<lambda>c. if c \<in> {0x5C, 0x2F, 0x3A, 0x2A, 0x3F, 0x22, 0x3C, 0x3E, 0x7C} then 0x5F else c) x"
    for x
    by (simp add: sanitize_def illegal_chars_def)
  from parse_share_url_success [OF assms] obtain vid page json_data data where
    h: "fetch_detail_page env text w = (Inr (vid, page), w')"
       "router_json env page = Inr json_data"
       "item_record json_data = Inr data" "video_info_of vid data = Inr vi"
    by blast
  from video_info_of_success [OF h(4)] obtain u d where
    g: "call_get data (str ''desc'') (JStr []) = Inr (JStr d)" and
    vi: "vi = \<lparr>url = str_replace (str ''playwm'') (str ''play'') u,
               title = sanitize (if str_strip d \<noteq> [] then str_strip d else str ''douyin_'' @ vid),
               video_id = vid\<rparr>"
    by blast
  from g obtain kvs where data: "data = JObj kvs"
    by (cases data) (auto simp: call_get_def)
  have strip_empty: "str_strip [] = []" by (simp add: str_strip_def)
  from vi have t: "title vi =
      sanitize (if str_strip d = [] then str ''douyin_'' @ vid else str_strip d)"
    by simp
  from g data have "map_of kvs (str ''desc'') = None \<and> d = [] \<or>
      map_of kvs (str ''desc'') = Some (JStr d)"
    by (auto simp: call_get_def split: option.splits)
  then have "(case map_of kvs (str ''desc'') of
              None \<Rightarrow>
                title vi =
                  map (\<lambda>c. if c \<in> {0x5C, 0x2F, 0x3A, 0x2A, 0x3F, 0x22, 0x3C, 0x3E, 0x7C} then 0x5F else c)
                    (str ''douyin_'' @ vid)
            | Some d \<Rightarrow>
                \<exists>s. d = JStr s \<and>
                  title vi =
                    map (\<lambda>c. if c \<in> {0x5C, 0x2F, 0x3A, 0x2A, 0x3F, 0x22, 0x3C, 0x3E, 0x7C} then 0x5F else c)
                      (if str_strip s = [] then str ''douyin_'' @ vid else str_strip s))"
  proof
    assume "map_of kvs (str ''desc'') = None \<and> d = []"
    with t strip_empty show ?thesis by (simp add: san)
  next
    assume "map_of kvs (str ''desc'') = Some (JStr d)"
    with t show ?thesis by (simp add: san)
  qed
  moreover from vi have "video_id vi = vid" by simp
  ultimately show ?thesis using h data by blast
qed

theorem title_is_description_or_default_witness:
  "parse_share_url sample_env (DouyinProcessor_init sample_text) empty_world =
     (Inr sample_info, sample_world) \<and>
   getitem sample_data (str ''desc'') = Inr (JStr (str '' A:B '')) \<and>
   title sample_info = str ''A_B'' \<and>
   (\<exists>vid page json_data kvs.
      fetch_detail_page sample_env sample_text empty_world = (Inr (vid, page), sample_world) \<and>
      router_json sample_env page = Inr json_data \<and>
      item_record json_data = Inr (JObj kvs) \<and>
      video_id sample_info = vid \<and>
      (case map_of kvs (str ''desc'') of
         None \<Rightarrow>
           title sample_info =
             map (\<lambda>c. if c \<in> {0x5C, 0x2F, 0x3A, 0x2A, 0x3F, 0x22, 0x3C, 0x3E, 0x7C} then 0x5F else c)
               (str ''douyin_'' @ vid)
       | Some d \<Rightarrow>
           \<exists>s. d = JStr s \<and>
             title sample_info =
               map (\<lambda>c. if c \<in> {0x5C, 0x2F, 0x3A, 0x2A, 0x3F, 0x22, 0x3C, 0x3E, 0x7C} then 0x5F else c)
                 (if str_strip s = [] then str ''douyin_'' @ vid else str_strip s))) \<and>
   parse_share_url blank_env (DouyinProcessor_init sample_text) empty_world =
     (Inr blank_info, sample_world) \<and>
   getitem blank_data (str ''desc'') = Inr (JStr (str ''  '')) \<and>
   title blank_info = str ''douyin_71'' \<and>
   (\<exists>vid page json_data kvs.
      fetch_detail_page blank_env sample_text empty_world = (Inr (vid, page), sample_world) \<and>
      router_json blank_env page = Inr json_data \<and>
      item_record json_data = Inr (JObj kvs) \<and>
      video_id blank_info = vid \<and>
      (case map_of kvs (str ''desc'') of
         None \<Rightarrow>
           title blank_info =
             map (\<lambda>c. if c \<in> {0x5C, 0x2F, 0x3A, 0x2A, 0x3F, 0x22, 0x3C, 0x3E, 0x7C} then 0x5F else c)
               (str ''douyin_'' @ vid)
       | Some d \<Rightarrow>
           \<exists>s. d = JStr s \<and>
             title blank_info =
               map (\<lambda>c. if c \<in> {0x5C, 0x2F, 0x3A, 0x2A, 0x3F, 0x22, 0x3C, 0x3E, 0x7C} then 0x5F else c)
                 (if str_strip s = [] then str ''douyin_'' @ vid else str_strip s)))"
proof -
  have facts:
    "getitem sample_data (str ''desc'') = Inr (JStr (str '' A:B ''))"
    "title sample_info = str ''A_B''"
    "getitem blank_data (str ''desc'') = Inr (JStr (str ''  ''))"
    "title blank_info = str ''douyin_71''"
    by (simp_all add: sample_data_def blank_data_def sample_info_def blank_info_def str_def)
  from title_is_description_or_default [OF sample_parse]
    title_is_description_or_default [OF blank_parse] sample_parse blank_parse facts
  show ?thesis by (intro conjI)
qed

text \<open>
  C9. An instance built by \<open>__init__\<close> has no attribute \<open>temp_dir\<close>, so its finalizer
  leaves the world, files and directories included, as it was.
\<close>

theorem finalizer_deletes_nothing:
  "\<not> hasattr (DouyinProcessor_init share_link) (str ''temp_dir'') \<and>
   DouyinProcessor_del (DouyinProcessor_init share_link) w = w"
  using attribute_names_differ
  by (simp add: DouyinProcessor_del_def hasattr_def DouyinProcessor_init_def setattr_def
      assign_def)

theorem finalizer_deletes_nothing_witness:
  "\<not> hasattr (DouyinProcessor_init sample_text) (str ''temp_dir'') \<and>
   DouyinProcessor_del (DouyinProcessor_init sample_text) cached_world = cached_world"
  using finalizer_deletes_nothing [of sample_text cached_world] by simp



text \<open>
  C5. \<open>get_douyin_download_link\<close> and \<open>parse_douyin_video_info\<close> always return. When the
  resolution raises \<open>e\<close> they return what \<open>json.dumps\<close> makes of the dict with the two
  keys \<open>status\<close>, which is \<open>error\<close>, and \<open>error\<close>, which is \<open>str(e)\<close>, after a fixed
  prefix in the first tool; for the two exceptions the code raises itself \<open>str(e)\<close> is
  the message they were raised with. \<open>download_douyin_video\<close> raises whatever the
  resolution or the download raises.
\<close>

theorem tools_catch_and_download_propagates:
  "(\<exists>out. fst (get_douyin_download_link env s w) = Inr out) \<and>
   (\<exists>out. fst (parse_douyin_video_info env s w) = Inr out) \<and>
   (\<forall>e w'. parse_share_url env (DouyinProcessor_init s) w = (Inl e, w') \<longrightarrow>
      get_douyin_download_link env s w =
        (Inr (json_dumps env
           (JObj [(str ''status'', JStr (str ''error'')),
                  (str ''error'', JStr (msg_link_failed @ exn_str env e))])), w') \<and>
      parse_douyin_video_info env s w =
        (Inr (json_dumps env
           (JObj [(str ''status'', JStr (str ''error'')),
                  (str ''error'', JStr (exn_str env e))])), w') \<and>
      download_douyin_video env s w = (Inl e, w')) \<and>
   (\<forall>m. exn_str env (ValueError m) = m \<and> exn_str env (Exception m) = m) \<and>
   (\<forall>vi w1 e w'.
      parse_share_url env (DouyinProcessor_init s) w = (Inr vi, w1) \<and>
      download_video env (DouyinProcessor_init s) vi w1 = (Inl e, w') \<longrightarrow>
      download_douyin_video env s w = (Inl e, w'))"
proof -
  obtain r w1 where run: "parse_share_url env (DouyinProcessor_init s) w = (r, w1)"
    by (cases "parse_share_url env (DouyinProcessor_init s) w")
  have 1: "\<exists>out. fst (get_douyin_download_link env s w) = Inr out"
    using run
    by (cases r) (simp_all add: get_douyin_download_link_def catchE_def bindE_def ret_def Let_def)
  have 2: "\<exists>out. fst (parse_douyin_video_info env s w) = Inr out"
    using run
    by (cases r) (simp_all add: parse_douyin_video_info_def catchE_def bindE_def ret_def Let_def)
  have 3: "get_douyin_download_link env s w =
        (Inr (json_dumps env
           (JObj [(str ''status'', JStr (str ''error'')),
                  (str ''error'', JStr (msg_link_failed @ exn_str env e))])), w') \<and>
      parse_douyin_video_info env s w =
        (Inr (json_dumps env
           (JObj [(str ''status'', JStr (str ''error'')),
                  (str ''error'', JStr (exn_str env e))])), w') \<and>
      download_douyin_video env s w = (Inl e, w')"
    if "parse_share_url env (DouyinProcessor_init s) w = (Inl e, w')" for e w'
    using that
    by (simp add: get_douyin_download_link_def parse_douyin_video_info_def
        download_douyin_video_def catchE_def bindE_def ret_def Let_def error_envelope_def)
  have 4: "download_douyin_video env s w = (Inl e, w')"
    if "parse_share_url env (DouyinProcessor_init s) w = (Inr vi, w1) \<and>
        download_video env (DouyinProcessor_init s) vi w1 = (Inl e, w')" for vi w1 e w'
    using that by (simp add: download_douyin_video_def bindE_def Let_def)
  have 5: "exn_str env (ValueError m) = m \<and> exn_str env (Exception m) = m" for m
    by (simp add: exn_str_def)
  from 1 2 3 4 5 show ?thesis by blast
qed

theorem tools_catch_and_download_propagates_witness:
  "get_douyin_download_link sample_env (str ''no link'') empty_world =
     (Inr (json_dumps sample_env
        (JObj [(str ''status'', JStr (str ''error'')),
               (str ''error'', JStr (msg_link_failed @ msg_no_link))])), empty_world) \<and>
   fst (get_douyin_download_link sample_env (str ''no link'') empty_world) =
     Inr (str ''error:'' @ msg_link_failed @ msg_no_link) \<and>
   parse_douyin_video_info sample_env (str ''no link'') empty_world =
     (Inr (json_dumps sample_env
        (JObj [(str ''status'', JStr (str ''error'')),
               (str ''error'', JStr (msg_no_link))])), empty_world) \<and>
   fst (parse_douyin_video_info sample_env (str ''no link'') empty_world) =
     Inr (str ''error:'' @ msg_no_link) \<and>
   download_douyin_video sample_env (str ''no link'') empty_world =
     (Inl (ValueError msg_no_link), empty_world) \<and>
   download_douyin_video nodir_env sample_text empty_world =
     (Inl (Raised (str ''No such file or directory'')), nodir_world)"
proof -
  have p: "parse_share_url sample_env (DouyinProcessor_init (str ''no link'')) empty_world =
      (Inl (ValueError msg_no_link), empty_world)"
    by (rule parse_share_url_no_match [OF no_link_findall])
  from tools_catch_and_download_propagates [of sample_env "str ''no link''" empty_world] p
  have a: "get_douyin_download_link sample_env (str ''no link'') empty_world =
      (Inr (json_dumps sample_env
         (JObj [(str ''status'', JStr (str ''error'')),
                (str ''error'', JStr (msg_link_failed @ msg_no_link))])), empty_world)"
    and b: "parse_douyin_video_info sample_env (str ''no link'') empty_world =
      (Inr (json_dumps sample_env
         (JObj [(str ''status'', JStr (str ''error'')),
                (str ''error'', JStr (msg_no_link))])), empty_world)"
    and c: "download_douyin_video sample_env (str ''no link'') empty_world =
      (Inl (ValueError msg_no_link), empty_world)"
    by metis+
  have dumps: "json_dumps sample_env
      (JObj [(str ''status'', JStr (str ''error'')), (str ''error'', JStr m)]) =
      str ''error:'' @ m" for m
    by (simp add: sample_env_def env_of_def str_def)
  from a dumps have a': "fst (get_douyin_download_link sample_env (str ''no link'') empty_world) =
      Inr (str ''error:'' @ msg_link_failed @ msg_no_link)"
    by simp
  from b dumps have b': "fst (parse_douyin_video_info sample_env (str ''no link'') empty_world) =
      Inr (str ''error:'' @ msg_no_link)"
    by simp
  from tools_catch_and_download_propagates [of nodir_env sample_text empty_world]
    nodir_parse nodir_download
  have d: "download_douyin_video nodir_env sample_text empty_world =
      (Inl (Raised (str ''No such file or directory'')), nodir_world)"
    by blast
  from a a' b b' c d show ?thesis by (intro conjI)
qed

text \<open>
  C6, as the spec states it, fails: with no \<open>content-length\<close> both chunks of the sample
  stream are written and the progress sink is never called.
\<close>

theorem progress_after_every_chunk_counterexample:
  "download_video unknown_env (DouyinProcessor_init sample_text) sample_info empty_world =
     (Inr sample_path, unknown_download_world) \<and>
   written_chunks (new_events empty_world unknown_download_world) = [''ab'', ''cde''] \<and>
   progress_calls (new_events empty_world unknown_download_world) = []"
  using unknown_download
  by (simp add: new_events_def empty_world_def unknown_download_world_def)

text \<open>
  C6, amended. In a download that completes, every chunk that is not empty is written,
  in order; when the declared size is positive the progress sink is called once after
  each of them, with the running byte count and that size, and when the size is unknown
  (no \<open>content-length\<close>, or one that is not positive) the sink is never called.
\<close>

theorem progress_after_every_chunk_of_known_total:
  assumes "download_video env (DouyinProcessor_init s) vi w = (Inr p, w')"
  shows "\<exists>response total_size.
           requests_get env (log_event (Info (msg_downloading @ title vi)) w) (url vi) =
             Inr response \<and>
           total_size_of env response = Inr total_size \<and>
           written_chunks (new_events w w') = filter (\<lambda>c. c \<noteq> []) (r_chunks response) \<and>
           progress_calls (new_events w w') =
             (if 0 < total_size then
                map (\<lambda>d. (d, total_size))
                  (running_totals 0 (filter (\<lambda>c. c \<noteq> []) (r_chunks response)))
              else []) \<and>
           length (progress_calls (new_events w w')) =
             (if 0 < total_size then length (written_chunks (new_events w w')) else 0)"
proof -
  have len: "length (running_totals d cs) = length cs" for d cs
    by (induction cs arbitrary: d) auto
  from download_video_observed [OF assms] obtain response total_size where
    h: "requests_get env (log_event (Info (msg_downloading @ title vi)) w) (url vi) =
          Inr response"
       "total_size_of env response = Inr total_size"
       "written_chunks (new_events w w') = filter (\<lambda>c. c \<noteq> []) (r_chunks response)"
       "progress_calls (new_events w w') =
          (if 0 < total_size then
             map (\<lambda>d. (d, total_size))
               (running_totals 0 (filter (\<lambda>c. c \<noteq> []) (r_chunks response)))
           else [])"
    by blast
  from h(3,4) have
    "length (progress_calls (new_events w w')) =
       (if 0 < total_size then length (written_chunks (new_events w w')) else 0)"
    by (simp add: len)
  with h show ?thesis by blast
qed

theorem progress_after_every_chunk_of_known_total_witness:
  "download_video sample_env (DouyinProcessor_init sample_text) sample_info empty_world =
     (Inr sample_path, sample_download_world) \<and>
   written_chunks (new_events empty_world sample_download_world) = [''ab'', ''cde''] \<and>
   progress_calls (new_events empty_world sample_download_world) = [(2, 5), (5, 5)] \<and>
   (\<exists>response total_size.
      requests_get sample_env (log_event (Info (msg_downloading @ title sample_info)) empty_world)
        (url sample_info) = Inr response \<and>
      total_size_of sample_env response = Inr total_size \<and>
      written_chunks (new_events empty_world sample_download_world) =
        filter (\<lambda>c. c \<noteq> []) (r_chunks response) \<and>
      progress_calls (new_events empty_world sample_download_world) =
        (if 0 < total_size then
           map (\<lambda>d. (d, total_size))
             (running_totals 0 (filter (\<lambda>c. c \<noteq> []) (r_chunks response)))
         else []) \<and>
      length (progress_calls (new_events empty_world sample_download_world)) =
        (if 0 < total_size then length (written_chunks (new_events empty_world sample_download_world))
         else 0))"
proof -
  have obs: "written_chunks (new_events empty_world sample_download_world) = [''ab'', ''cde'']"
    "progress_calls (new_events empty_world sample_download_world) = [(2, 5), (5, 5)]"
    by (simp_all add: new_events_def empty_world_def sample_download_world_def)
  from progress_after_every_chunk_of_known_total [OF sample_download] sample_download obs
  show ?thesis by blast
qed

text \<open>
  C7, as the spec states it, fails: the sample stream that declares 5 bytes and delivers 2
  completes without error, the file holds 2 bytes and the last progress value is 2.
\<close>

theorem known_length_download_counterexample:
  "download_video short_env (DouyinProcessor_init sample_text) sample_info empty_world =
     (Inr sample_path, short_download_world) \<and>
   total_size_of short_env (sample_response\<lparr>r_chunks := [''ab'']\<rparr>) = Inr 5 \<and>
   file_content short_download_world sample_path = ''ab'' \<and>
   progress_calls (new_events empty_world short_download_world) = [(2, 5)]"
  using short_download
  by (simp add: new_events_def empty_world_def short_download_world_def file_content_def
      total_size_of_def short_env_def env_of_def sample_response_def)

text \<open>
  C7, amended. In a download that completes, the destination file holds exactly the bytes
  the stream delivered and the byte counts given to the progress sink never decrease; when
  the declared size is positive and the stream delivered exactly that many bytes, the file
  holds that many bytes, the sink has been called, and its last byte count is that size.
\<close>

theorem known_length_download_writes_delivered_bytes:
  assumes "download_video env (DouyinProcessor_init s) vi w = (Inr p, w')"
  shows "\<exists>response total_size.
           requests_get env (log_event (Info (msg_downloading @ title vi)) w) (url vi) =
             Inr response \<and>
           total_size_of env response = Inr total_size \<and>
           file_content w' p = concat (r_chunks response) \<and>
           sorted (map fst (progress_calls (new_events w w'))) \<and>
           (0 < total_size \<and> int (length (concat (r_chunks response))) = total_size \<longrightarrow>
              int (length (file_content w' p)) = total_size \<and>
              progress_calls (new_events w w') \<noteq> [] \<and>
              fst (last (progress_calls (new_events w w'))) = total_size)"
proof -
  from download_video_observed [OF assms] obtain response total_size where
    h: "requests_get env (log_event (Info (msg_downloading @ title vi)) w) (url vi) =
          Inr response"
       "total_size_of env response = Inr total_size"
       "file_content w' p = concat (r_chunks response)"
       "progress_calls (new_events w w') =
          (if 0 < total_size then
             map (\<lambda>d. (d, total_size))
               (running_totals 0 (filter (\<lambda>c. c \<noteq> []) (r_chunks response)))
           else [])"
    by blast
  let ?cs = "filter (\<lambda>c. c \<noteq> []) (r_chunks response)"
  from h(4) have sorted: "sorted (map fst (progress_calls (new_events w w')))"
    by (simp add: o_def running_totals_sorted)
  have known: "int (length (file_content w' p)) = total_size \<and>
      progress_calls (new_events w w') \<noteq> [] \<and>
      fst (last (progress_calls (new_events w w'))) = total_size"
    if pos: "0 < total_size" and all: "int (length (concat (r_chunks response))) = total_size"
  proof -
    from pos all have "concat ?cs \<noteq> []"
      by (simp only: concat_filter_nonempty) auto
    then have ne: "?cs \<noteq> []" by (cases ?cs) simp_all
    then have rt: "running_totals 0 ?cs \<noteq> []" by (simp add: running_totals_Nil_iff)
    from pos h(4) have pc:
      "progress_calls (new_events w w') = map (\<lambda>d. (d, total_size)) (running_totals 0 ?cs)"
      by simp
    from rt pc have "fst (last (progress_calls (new_events w w'))) = last (running_totals 0 ?cs)"
      by (simp add: last_map)
    also from running_totals_last [OF ne] all have "\<dots> = total_size"
      by (simp add: concat_filter_nonempty)
    finally have "fst (last (progress_calls (new_events w w'))) = total_size" .
    with rt pc h(3) all show ?thesis by simp
  qed
  from h(1,2,3) sorted known show ?thesis by blast
qed

theorem known_length_download_writes_delivered_bytes_witness:
  "download_video sample_env (DouyinProcessor_init sample_text) sample_info empty_world =
     (Inr sample_path, sample_download_world) \<and>
   total_size_of sample_env sample_response = Inr 5 \<and>
   int (length (concat (r_chunks sample_response))) = 5 \<and>
   int (length (file_content sample_download_world sample_path)) = 5 \<and>
   sorted (map fst (progress_calls (new_events empty_world sample_download_world))) \<and>
   fst (last (progress_calls (new_events empty_world sample_download_world))) = 5"
proof -
  have rq: "requests_get sample_env w u = Inr sample_response" for w u
    by (simp add: sample_env_def env_of_def)
  have ts: "total_size_of sample_env sample_response = Inr 5"
    by (simp add: total_size_of_def sample_env_def env_of_def sample_response_def)
  have len: "int (length (concat (r_chunks sample_response))) = 5"
    by (simp add: sample_response_def)
  from known_length_download_writes_delivered_bytes [OF sample_download] obtain response total_size
    where h: "requests_get sample_env
          (log_event (Info (msg_downloading @ title sample_info)) empty_world) (url sample_info) =
          Inr response"
      "total_size_of sample_env response = Inr total_size"
      "sorted (map fst (progress_calls (new_events empty_world sample_download_world)))"
      "0 < total_size \<and> int (length (concat (r_chunks response))) = total_size \<longrightarrow>
         int (length (file_content sample_download_world sample_path)) = total_size \<and>
         progress_calls (new_events empty_world sample_download_world) \<noteq> [] \<and>
         fst (last (progress_calls (new_events empty_world sample_download_world))) = total_size"
    by blast
  from h(1) rq have r: "response = sample_response" by simp
  with h(2) ts have t: "total_size = 5" by simp
  from h(4) r t len have
    "int (length (file_content sample_download_world sample_path)) = 5 \<and>
     fst (last (progress_calls (new_events empty_world sample_download_world))) = 5"
    by simp
  with sample_download ts len h(3) show ?thesis by simp
qed

text \<open>
  C10. Whatever the outcome of a download, every progress report it makes carries the
  number of bytes written to the file before it. In a download that completes, the
  chunks written are the chunks of the stream that are not empty, each once and in
  order, and the file holds their concatenation.
\<close>

theorem reported_count_is_bytes_written:
  assumes "download_video env (DouyinProcessor_init s) vi w = (r, w')"
  shows "\<exists>es. trace w' = trace w @ es \<and> reports_match 0 es \<and>
           (case r of
              Inl e \<Rightarrow> True
            | Inr p \<Rightarrow>
                \<exists>response.
                  requests_get env (log_event (Info (msg_downloading @ title vi)) w) (url vi) =
                    Inr response \<and>
                  written_chunks es = filter (\<lambda>c. c \<noteq> []) (r_chunks response) \<and>
                  file_content w' p = concat (written_chunks es))"
proof -
  from download_video_reports [of env "DouyinProcessor_init s" vi] assms
  obtain es where es: "trace w' = trace w @ es" "reports_match 0 es"
    unfolding emits_def by blast
  show ?thesis
  proof (cases r)
    case (Inl e)
    with es show ?thesis by auto
  next
    case (Inr p)
    with assms have "download_video env (DouyinProcessor_init s) vi w = (Inr p, w')" by simp
    from download_video_observed [OF this] obtain response where
      "requests_get env (log_event (Info (msg_downloading @ title vi)) w) (url vi) = Inr response"
      "file_content w' p = concat (r_chunks response)"
      "written_chunks (new_events w w') = filter (\<lambda>c. c \<noteq> []) (r_chunks response)"
      by blast
    with new_events_append [OF es(1)] es Inr show ?thesis
      by (auto simp: concat_filter_nonempty)
  qed
qed

theorem reported_count_is_bytes_written_witness:
  "download_video sample_env (DouyinProcessor_init sample_text) sample_info empty_world =
     (Inr sample_path, sample_download_world) \<and>
   (\<exists>es. trace sample_download_world = trace empty_world @ es \<and> reports_match 0 es \<and>
      (\<exists>response.
         requests_get sample_env
           (log_event (Info (msg_downloading @ title sample_info)) empty_world)
           (url sample_info) = Inr response \<and>
         written_chunks es = filter (\<lambda>c. c \<noteq> []) (r_chunks response) \<and>
         file_content sample_download_world sample_path = concat (written_chunks es)))"
  using reported_count_is_bytes_written [OF sample_download] sample_download by simp

end
